theory Spec2Isabelle
  imports Main
begin

section \<open>The fixed-window limiter\<close>

text \<open>
  Time is \<open>Date.now()\<close>, in milliseconds. Timers are taken to fire exactly when they are
  due, so a call that a limiter delays by \<open>d\<close> starts \<open>d\<close> milliseconds after it was
  submitted.
\<close>

type_synonym time = nat

record limiter =
  capacity :: nat
  windowDuration :: nat
  windowStart :: "time option"
  usedInWindow :: nat

text \<open>
  Modelled from the spec: the fixed-window limiter, which \<open>agent.ts\<close> imports from the
  external package \<open>p-throttle\<close> (\<open>pThrottle({limit, interval})\<close>); its code is not part
  of the repository. A fresh limiter has no window yet.
\<close>

definition pThrottle :: "nat \<Rightarrow> nat \<Rightarrow> limiter" where
  "pThrottle lim ivl =
     \<lparr>capacity = lim, windowDuration = ivl, windowStart = None, usedInWindow = 0\<rparr>"

text \<open>
  Modelled from the spec: \<open>admit\<close> of the fixed-window limiter (the call of a function
  throttled by \<open>p-throttle\<close>). \<open>admit l now\<close> submits a call at time \<open>now\<close> and returns
  the time at which the call is started, with the limiter's new state. A call that
  arrives when the window has elapsed opens a new window at \<open>now\<close>; a call that finds
  quota left in the window starts in it; a call that finds the quota used up is queued
  for the next window, which begins one \<open>windowDuration\<close> after the current one. The
  pending queue of the spec is the set of calls whose start time lies in the future:
  then \<open>windowStart\<close> is the start of the window the last queued call was put in, and
  \<open>usedInWindow\<close> counts the calls already placed there, so queued calls are started in
  arrival order, at most \<open>capacity\<close> per window.
\<close>

definition admit :: "limiter \<Rightarrow> time \<Rightarrow> time \<times> limiter" where
  "admit l now =
     (case windowStart l of
        None \<Rightarrow> (now, l\<lparr>windowStart := Some now, usedInWindow := 1\<rparr>)
      | Some ws \<Rightarrow>
          if ws + windowDuration l \<le> now
          then (now, l\<lparr>windowStart := Some now, usedInWindow := 1\<rparr>)
          else if usedInWindow l < capacity l
          then (max now ws, l\<lparr>usedInWindow := usedInWindow l + 1\<rparr>)
          else (ws + windowDuration l,
                l\<lparr>windowStart := Some (ws + windowDuration l), usedInWindow := 1\<rparr>))"

section \<open>Property lookup on a plain object\<close>

text \<open>
  \<open>recipientThrottles\<close> and \<open>displayNameMap\<close> are object literals \<open>{}\<close> used as
  dictionaries. Reading \<open>obj[key]\<close> finds an own property first and then walks the
  prototype chain, so a key that names a member of \<open>Object.prototype\<close> yields that
  member although it was never stored.
\<close>

definition objectPrototype :: "string list" where
  "objectPrototype =
     [''constructor'', ''__defineGetter__'', ''__defineSetter__'', ''hasOwnProperty'',
      ''__lookupGetter__'', ''__lookupSetter__'', ''isPrototypeOf'',
      ''propertyIsEnumerable'', ''toString'', ''valueOf'', ''__proto__'',
      ''toLocaleString'']"

datatype 'a property = Own 'a | Inherited string

definition getProperty :: "(string \<rightharpoonup> 'a) \<Rightarrow> string \<Rightarrow> 'a property option" where
  "getProperty obj key =
     (case obj key of
        Some v \<Rightarrow> Some (Own v)
      | None \<Rightarrow> if key \<in> set objectPrototype then Some (Inherited key) else None)"

section \<open>The agent\<close>

datatype error = TypeError | TransportError string

type_synonym fileBox = string
type_synonym richText = string

text \<open>The primitives of the transport \<open>this.wcf\<close> that the API methods call.\<close>

datatype wcf_call =
    InviteRoomMembers string "string list"
  | AddRoomMembers string "string list"
  | DelRoomMembers string "string list"
  | SendTxt string string "string list"
  | SendImg fileBox string
  | SendFileTo fileBox string
  | SendRichTextTo richText string
  | ForwardMsgTo string string

text \<open>
  The transport is external: what a primitive returns, or the error it throws, may
  depend on when it runs.
\<close>

type_synonym wcf = "time \<Rightarrow> wcf_call \<Rightarrow> error + int"

text \<open>The API methods of \<open>WechatferryAgent\<close> that call a transport primitive.\<close>

datatype request =
    InviteChatRoomMembers string string
  | AddChatRoomMembers string string
  | RemoveChatRoomMembers string string
  | SendText string string "string list"
  | SendImage string fileBox
  | SendFile string fileBox
  | SendRichText string richText
  | ForwardMsg string string

fun prop_of :: "request \<Rightarrow> string" where
  "prop_of (InviteChatRoomMembers roomId contactId) = ''inviteChatRoomMembers''"
| "prop_of (AddChatRoomMembers roomId contactId) = ''addChatRoomMembers''"
| "prop_of (RemoveChatRoomMembers roomId contactId) = ''removeChatRoomMembers''"
| "prop_of (SendText conversationId text mentionIdList) = ''sendText''"
| "prop_of (SendImage conversationId img) = ''sendImage''"
| "prop_of (SendFile conversationId file) = ''sendFile''"
| "prop_of (SendRichText conversationId desc) = ''sendRichText''"
| "prop_of (ForwardMsg conversationId messageId) = ''forwardMsg''"

text \<open>The first argument of the call: \<open>const [id] = args\<close>.\<close>

fun first_arg :: "request \<Rightarrow> string" where
  "first_arg (InviteChatRoomMembers roomId contactId) = roomId"
| "first_arg (AddChatRoomMembers roomId contactId) = roomId"
| "first_arg (RemoveChatRoomMembers roomId contactId) = roomId"
| "first_arg (SendText conversationId text mentionIdList) = conversationId"
| "first_arg (SendImage conversationId img) = conversationId"
| "first_arg (SendFile conversationId file) = conversationId"
| "first_arg (SendRichText conversationId desc) = conversationId"
| "first_arg (ForwardMsg conversationId messageId) = conversationId"

text \<open>The method bodies: each forwards to one primitive of the transport.\<close>

fun methodBody :: "wcf \<Rightarrow> time \<Rightarrow> request \<Rightarrow> error + int" where
  "methodBody w t (InviteChatRoomMembers roomId contactId) = w t (InviteRoomMembers roomId [contactId])"
| "methodBody w t (AddChatRoomMembers roomId contactId) = w t (AddRoomMembers roomId [contactId])"
| "methodBody w t (RemoveChatRoomMembers roomId contactId) = w t (DelRoomMembers roomId [contactId])"
| "methodBody w t (SendText conversationId text mentionIdList) =
     w t (SendTxt text conversationId mentionIdList)"
| "methodBody w t (SendImage conversationId img) = w t (SendImg img conversationId)"
| "methodBody w t (SendFile conversationId file) = w t (SendFileTo file conversationId)"
| "methodBody w t (SendRichText conversationId desc) = w t (SendRichTextTo desc conversationId)"
| "methodBody w t (ForwardMsg conversationId messageId) = w t (ForwardMsgTo conversationId messageId)"

text \<open>
  The fields of the agent that dispatching reads and writes: \<open>safe\<close>, the global
  limiter and the per-recipient registry (the own properties of \<open>recipientThrottles\<close>).
\<close>

record agent =
  safe :: bool
  throttleGlobal :: limiter
  recipientThrottles :: "string \<rightharpoonup> limiter"

text \<open>
  The constructor. \<open>resolvedWechatferryAgentOptions\<close> is not among the sources; the
  \<open>safe\<close> value it resolves is the parameter. 40 messages per window of 60 seconds.
\<close>

definition constructor :: "bool \<Rightarrow> agent" where
  "constructor resolvedSafe =
     \<lparr>safe = resolvedSafe, throttleGlobal = pThrottle 40 60000,
      recipientThrottles = Map.empty\<rparr>"

text \<open>
  \<open>getThrottleForRecipient\<close>. The argument \<open>randomInt\<close> is the value that
  \<open>randomInt(1000, 3000)\<close> returns when this call evaluates it; it is read only when a
  throttle is created. The result is what \<open>this.recipientThrottles[recipient]\<close> holds
  after the call.
\<close>

definition getThrottleForRecipient ::
    "nat \<Rightarrow> agent \<Rightarrow> string \<Rightarrow> limiter property \<times> agent" where
  "getThrottleForRecipient randomInt this recipient =
     (case getProperty (recipientThrottles this) recipient of
        None \<Rightarrow>
          (let throttle = pThrottle 1 randomInt
           in (Own throttle,
               this\<lparr>recipientThrottles := (recipientThrottles this)(recipient \<mapsto> throttle)\<rparr>))
      | Some throttle \<Rightarrow> (throttle, this))"

subsection \<open>The proxy\<close>

definition startsWith :: "string \<Rightarrow> string \<Rightarrow> bool" where
  "startsWith s p = (take (length p) s = p)"

text \<open>
  \<open>typeof target[prop] === 'function'\<close> for the members that \<open>agent.ts\<close> declares:
  the methods, the arrow function \<open>getThrottleForRecipient\<close> and the function
  \<open>throttleGlobal\<close>; not \<open>timer\<close>, \<open>wcf\<close>, \<open>safe\<close>, \<open>recipientThrottles\<close> and the
  getter \<open>isLoggedIn\<close>.
\<close>

definition functionMembers :: "string list" where
  "functionMembers =
     [''throttleGlobal'', ''start'', ''stop'', ''catchErrors'', ''checkLogin'',
      ''startTimer'', ''stopTimer'', ''getThrottleForRecipient'', ''dbSqlQuery'',
      ''inviteChatRoomMembers'', ''addChatRoomMembers'', ''removeChatRoomMembers'',
      ''sendText'', ''sendImage'', ''sendFile'', ''sendRichText'', ''forwardMsg'',
      ''getChatRoomDetailList'', ''getChatRoomInfo'', ''getChatRoomMembers'',
      ''getContactInfo'', ''getContactList'', ''getTagList'', ''getTalkerId'',
      ''getHistoryMessageList'']"

text \<open>The condition of the \<open>get\<close> trap under which it returns the throttling wrapper.\<close>

definition intercepted :: "agent \<Rightarrow> string \<Rightarrow> bool" where
  "intercepted target prop =
     (safe target \<and> prop \<in> set functionMembers \<and> startsWith prop ''send'')"

text \<open>
  What a call does, as the list of its steps in the order they happen: a limiter is
  handed the call, a limiter starts it, the method body runs.
\<close>

datatype gate = Global | Recipient string

datatype event = Submitted gate time | Admitted gate time | Executed time

record outcome =
  trace :: "event list"
  settled :: "error + int"

text \<open>One call through the proxy: when it is made, what is called, and the random draw.\<close>

record call =
  at :: time
  req :: request
  draw :: nat

text \<open>
  The wrapper of the \<open>get\<close> trap. It looks the recipient's throttle up at once, wraps the
  method call in it, wraps that in the global limiter and calls the result: the global
  limiter is handed the call when it is made, and the function it starts hands the call
  to the recipient's throttle, which starts the method.

  When the lookup yields a member of \<open>Object.prototype\<close> instead of a throttle, that
  member is what gets called with the method call as its argument:
  \<open>Object(f)\<close> returns \<open>f\<close> itself, so the global limiter starts the method directly;
  \<open>Object.prototype.toString(f)\<close> returns a string, and calling it, once the global
  limiter has started the call, throws a \<open>TypeError\<close>; \<open>__proto__\<close> is not a function
  and the other members throw a \<open>TypeError\<close> when called without a receiver, before
  anything is submitted.
\<close>

definition throttledSend :: "wcf \<Rightarrow> agent \<Rightarrow> call \<Rightarrow> outcome \<times> agent" where
  "throttledSend w target c =
     (let id = first_arg (req c);
          (throttleForRecipient, target1) = getThrottleForRecipient (draw c) target id
      in case throttleForRecipient of
           Own throttle \<Rightarrow>
             (let (tg, g) = admit (throttleGlobal target1) (at c);
                  (te, r) = admit throttle tg
              in (\<lparr>trace = [Submitted Global (at c), Admitted Global tg,
                             Submitted (Recipient id) tg, Admitted (Recipient id) te,
                             Executed te],
                   settled = methodBody w te (req c)\<rparr>,
                  target1\<lparr>throttleGlobal := g,
                          recipientThrottles := (recipientThrottles target1)(id \<mapsto> r)\<rparr>))
         | Inherited key \<Rightarrow>
             if key = ''constructor''
             then (let (tg, g) = admit (throttleGlobal target1) (at c)
                   in (\<lparr>trace = [Submitted Global (at c), Admitted Global tg, Executed tg],
                        settled = methodBody w tg (req c)\<rparr>,
                       target1\<lparr>throttleGlobal := g\<rparr>))
             else if key = ''toString''
             then (let (tg, g) = admit (throttleGlobal target1) (at c)
                   in (\<lparr>trace = [Submitted Global (at c), Admitted Global tg],
                        settled = Inl TypeError\<rparr>,
                       target1\<lparr>throttleGlobal := g\<rparr>))
             else (\<lparr>trace = [], settled = Inl TypeError\<rparr>, target1))"

text \<open>
  A call of a method through the proxy: the wrapper when the trap's condition holds,
  the method itself otherwise.
\<close>

definition invoke :: "wcf \<Rightarrow> agent \<Rightarrow> call \<Rightarrow> outcome \<times> agent" where
  "invoke w target c =
     (if intercepted target (prop_of (req c))
      then throttledSend w target c
      else (\<lparr>trace = [Executed (at c)], settled = methodBody w (at c) (req c)\<rparr>, target))"

text \<open>
  A history: calls made one after the other. The limiters are consulted in the order of
  the calls, which is the order in which their timers fire when the calls are made at
  non-decreasing times.
\<close>

fun run :: "wcf \<Rightarrow> agent \<Rightarrow> call list \<Rightarrow> outcome list \<times> agent" where
  "run w a [] = ([], a)"
| "run w a (c # cs) =
     (let (out, a1) = invoke w a c;
          (outs, a2) = run w a1 cs
      in (out # outs, a2))"

text \<open>
  \<open>safe\<close> is declared as a public field that is not \<open>readonly\<close>, and the proxy has
  a \<open>get\<close> trap only: the assignment \<open>agent.safe = v\<close> by the code that holds the agent
  goes through the proxy and writes the field of the target. A history may hold such
  assignments between the calls.
\<close>

datatype step = Call call | AssignSafe bool

fun perform :: "wcf \<Rightarrow> agent \<Rightarrow> step list \<Rightarrow> outcome list \<times> agent" where
  "perform w a [] = ([], a)"
| "perform w a (Call c # steps) =
     (let (out, a1) = invoke w a c;
          (outs, a2) = perform w a1 steps
      in (out # outs, a2))"
| "perform w a (AssignSafe v # steps) = perform w (a\<lparr>safe := v\<rparr>) steps"

text \<open>The value that \<open>safe\<close> was given last: by the constructor or by an assignment.\<close>

fun safeAfter :: "bool \<Rightarrow> step list \<Rightarrow> bool" where
  "safeAfter s [] = s"
| "safeAfter s (Call c # steps) = safeAfter s steps"
| "safeAfter s (AssignSafe v # steps) = safeAfter v steps"

text \<open>The times at which method bodies start, read off the outcomes of a history.\<close>

fun executedAt :: "event \<Rightarrow> time list" where
  "executedAt (Executed t) = [t]"
| "executedAt (Submitted g t) = []"
| "executedAt (Admitted g t) = []"

definition executions :: "outcome list \<Rightarrow> time list" where
  "executions outs = concat (map executedAt (concat (map trace outs)))"

text \<open>The start times of the send operations addressed to one recipient, in call order.\<close>

definition isSendTo :: "string \<Rightarrow> call \<Rightarrow> bool" where
  "isSendTo r c = (startsWith (prop_of (req c)) ''send'' \<and> first_arg (req c) = r)"

fun executionsFor :: "string \<Rightarrow> call list \<Rightarrow> outcome list \<Rightarrow> time list" where
  "executionsFor r (c # cs) (out # outs) =
     (if isSendTo r c then executions [out] else []) @ executionsFor r cs outs"
| "executionsFor r cs outs = []"

text \<open>Consecutive times of a list are at least \<open>d\<close> apart.\<close>

fun spaced :: "nat \<Rightarrow> time list \<Rightarrow> bool" where
  "spaced d (t1 # t2 # ts) = (t1 + d \<le> t2 \<and> spaced d (t2 # ts))"
| "spaced d ts = True"

text \<open>How many method bodies start in the window of length \<open>len\<close> that begins at \<open>ws\<close>.\<close>

definition startedInWindow :: "time \<Rightarrow> nat \<Rightarrow> outcome list \<Rightarrow> nat" where
  "startedInWindow ws len outs =
     length (filter (\<lambda>t. ws \<le> t \<and> t < ws + len) (executions outs))"

text \<open>
  The invariant of a throttle of capacity 1: once it has a window, that window is used
  up by the call that opened it.
\<close>

definition paced :: "limiter \<Rightarrow> bool" where
  "paced l = (capacity l = 1 \<and> (windowStart l \<noteq> None \<longrightarrow> usedInWindow l = 1))"

definition registryPaced :: "agent \<Rightarrow> bool" where
  "registryPaced a = (\<forall>r th. recipientThrottles a r = Some th \<longrightarrow> paced th)"

text \<open>The limiter that a call is handed to first.\<close>

fun submittedTo :: "event \<Rightarrow> gate list" where
  "submittedTo (Submitted g t) = [g]"
| "submittedTo (Admitted g t) = []"
| "submittedTo (Executed t) = []"

definition handedFirstTo :: "event list \<Rightarrow> gate option" where
  "handedFirstTo tr = (case concat (map submittedTo tr) of [] \<Rightarrow> None | g # gs \<Rightarrow> Some g)"

subsection \<open>Histories used below\<close>

text \<open>A text message to \<open>r\<close> at time \<open>t\<close>; were a throttle created, its window would be 1000.\<close>

definition sendTo :: "time \<Rightarrow> string \<Rightarrow> call" where
  "sendTo t r = \<lparr>at = t, req = SendText r ''hi'' [], draw = 1000\<rparr>"

text \<open>A transport on which every primitive returns 0.\<close>

definition idle :: wcf where
  "idle t p = Inr 0"

definition forty :: "string list" where
  "forty = [''c01'', ''c02'', ''c03'', ''c04'', ''c05'', ''c06'', ''c07'', ''c08'',
              ''c09'', ''c10'', ''c11'', ''c12'', ''c13'', ''c14'', ''c15'', ''c16'',
              ''c17'', ''c18'', ''c19'', ''c20'', ''c21'', ''c22'', ''c23'', ''c24'',
              ''c25'', ''c26'', ''c27'', ''c28'', ''c29'', ''c30'', ''c31'', ''c32'',
              ''c33'', ''c34'', ''c35'', ''c36'', ''c37'', ''c38'', ''c39'', ''c40'']"

text \<open>Forty-one messages at the same moment, each to a recipient of its own.\<close>

definition fortyOneAtOnce :: "call list" where
  "fortyOneAtOnce = map (sendTo 0) (forty @ [''c41''])"

text \<open>
  One message to \<open>bob\<close>, two to \<open>alice\<close> 59.5 seconds later, and forty messages to forty
  other recipients once the global limiter's first window is over.
\<close>

definition burst :: "call list" where
  "burst = [sendTo 0 ''bob'', sendTo 59500 ''alice'', sendTo 59500 ''alice''] @
           map (sendTo 60001) forty"

text \<open>Two messages at the same moment to the recipient whose identifier is \<open>constructor\<close>.\<close>

definition twice :: "call list" where
  "twice = [sendTo 0 ''constructor'', sendTo 0 ''constructor'']"

section \<open>Reading the local stores\<close>

text \<open>
  \<open>s.split(sep)\<close> for a separator that is not empty: the pieces of \<open>s\<close> between the
  occurrences of \<open>sep\<close>, found from the left. \<open>piece\<close> is the piece being read.
\<close>

function splitBy :: "string \<Rightarrow> string \<Rightarrow> string \<Rightarrow> string list" where
  "splitBy sep piece s =
     (if s = [] then [piece]
      else if sep \<noteq> [] \<and> take (length sep) s = sep
      then piece # splitBy sep [] (drop (length sep) s)
      else splitBy sep (piece @ [hd s]) (tl s))"
  by pat_completeness auto
termination
  by (relation "measure (\<lambda>(sep, piece, s). length s)") auto

declare splitBy.simps [simp del]

text \<open>\<open>xs[i]\<close>, which is \<open>undefined\<close> beyond the end of the array.\<close>

definition element :: "'a list \<Rightarrow> nat \<Rightarrow> 'a option" where
  "element xs i = (if i < length xs then Some (xs ! i) else None)"

text \<open>
  \<open>obj[key] = v\<close> on an object literal. Assigning a string or \<open>undefined\<close> to
  \<open>__proto__\<close> goes to the setter of \<open>Object.prototype\<close>, which ignores it.
\<close>

definition setProperty :: "(string \<rightharpoonup> 'a) \<Rightarrow> string \<Rightarrow> 'a \<Rightarrow> (string \<rightharpoonup> 'a)" where
  "setProperty obj key v = (if key = ''__proto__'' then obj else obj(key \<mapsto> v))"

text \<open>
  The rows of a query are objects; the model names the columns that the code reads and
  keeps the others in the extension of the record. \<open>None\<close> in a column is SQL \<open>NULL\<close>.
  The query builders and the store are external: each read takes the rows that
  \<open>this.dbSqlQuery\<close> returns for its query as a function of the query's arguments.
\<close>

record chatRoomInfoRow =
  UserNameList :: "string option"
  DisplayNameList :: "string option"

record 'r chatRoomInfo =
  infoRow :: "'r chatRoomInfoRow_scheme"
  memberIdList :: "string list"
  displayNames :: "string list"
  displayNameMap :: "string \<rightharpoonup> string option"

definition getChatRoomInfo ::
    "(string \<Rightarrow> 'r chatRoomInfoRow_scheme list) \<Rightarrow> string \<Rightarrow> error + 'r chatRoomInfo option" where
  "getChatRoomInfo dbSqlQuery userName =
     (case dbSqlQuery userName of
        [] \<Rightarrow> Inr None
      | row # others \<Rightarrow>
          (case UserNameList row of
             None \<Rightarrow> Inl TypeError
           | Some userNames \<Rightarrow>
               (case DisplayNameList row of
                  None \<Rightarrow> Inl TypeError
                | Some nickNames \<Rightarrow>
                    (let ids = splitBy ''^G'' [] userNames;
                         names = splitBy ''^G'' [] nickNames
                     in Inr (Some
                          \<lparr>infoRow = row, memberIdList = ids, displayNames = names,
                           displayNameMap =
                             foldl (\<lambda>m (index, memberId). setProperty m memberId (element names index))
                               Map.empty (enumerate 0 ids)\<rparr>)))))"

record memberRow =
  UserName :: string

record 'r chatRoomMember =
  contactRow :: "'r memberRow_scheme"
  DisplayName :: "string property"

text \<open>\<open>displayNameMap[result.UserName] || ''\<close>.\<close>

definition displayNameOf :: "(string \<rightharpoonup> string option) \<Rightarrow> string \<Rightarrow> string property" where
  "displayNameOf m key =
     (case getProperty m key of
        Some (Own (Some n)) \<Rightarrow> Own n
      | Some (Own None) \<Rightarrow> Own []
      | Some (Inherited k) \<Rightarrow> Inherited k
      | None \<Rightarrow> Own [])"

definition getChatRoomMembers ::
    "(string \<Rightarrow> 'r chatRoomInfoRow_scheme list) \<Rightarrow> (string list \<Rightarrow> 'm memberRow_scheme list) \<Rightarrow>
     string \<Rightarrow> error + 'm chatRoomMember list option" where
  "getChatRoomMembers infoQuery dbSqlQuery userName =
     (case getChatRoomInfo infoQuery userName of
        Inl e \<Rightarrow> Inl e
      | Inr None \<Rightarrow> Inr None
      | Inr (Some roomInfo) \<Rightarrow>
          Inr (Some (map (\<lambda>result.
                 \<lparr>contactRow = result,
                  DisplayName = displayNameOf (displayNameMap roomInfo) (UserName result)\<rparr>)
               (dbSqlQuery (memberIdList roomInfo)))))"

record contactInfoRow =
  LabelIDList :: "string option"

record 'r contactInfo =
  contact :: "'r contactInfoRow_scheme"
  tags :: "string list"

definition getContactInfo ::
    "(string \<Rightarrow> 'r contactInfoRow_scheme list) \<Rightarrow> string \<Rightarrow> 'r contactInfo option" where
  "getContactInfo dbSqlQuery userName =
     (case dbSqlQuery userName of
        [] \<Rightarrow> None
      | row # others \<Rightarrow>
          Some \<lparr>contact = row,
                tags = (case LabelIDList row of
                          None \<Rightarrow> []
                        | Some labels \<Rightarrow> filter (\<lambda>v. v \<noteq> []) (splitBy '','' [] labels))\<rparr>)"

record talkerRow =
  TalkerId :: string

definition getTalkerId :: "(string \<Rightarrow> 'r talkerRow_scheme list) \<Rightarrow> string \<Rightarrow> string option" where
  "getTalkerId dbSqlQuery userName =
     (case dbSqlQuery userName of
        [] \<Rightarrow> None
      | row # others \<Rightarrow> Some (TalkerId row))"


section \<open>Payload decoders\<close>

type_synonym bytes = string

text \<open>
  The field layouts of the two blobs are pinned constants of the platform that neither
  the sources nor the spec give. They are parameters: \<open>readFields\<close> reads a sender-extra
  buffer into its tagged fields (\<open>None\<close> when the buffer is truncated or malformed),
  \<open>senderTag\<close> is the tag of the sender field, of whatever type the tags are, and \<open>member\<close> reads one member sub-record at
  the front of a room-membership buffer, giving the member identifier and the number of
  bytes the sub-record takes (\<open>None\<close> when it is truncated or malformed).
\<close>

type_synonym 't fieldReader = "bytes \<Rightarrow> ('t \<times> string) list option"
type_synonym memberReader = "bytes \<Rightarrow> (string \<times> nat) option"

record senderExtraRecord =
  sender :: "string option"

text \<open>
  Modelled from the spec: \<open>decodeBytesExtra\<close> of \<open>./utils\<close>, which is not among the
  sources (the sender-extra decoder, section 4.4). The record is absent of a sender when
  the buffer is empty, truncated or without the sender field; the decoder never fails.
\<close>

definition decodeBytesExtra :: "'t fieldReader \<Rightarrow> 't \<Rightarrow> bytes \<Rightarrow> senderExtraRecord" where
  "decodeBytesExtra readFields senderTag buf =
     \<lparr>sender = (if buf = [] then None
                else case readFields buf of
                       None \<Rightarrow> None
                     | Some fs \<Rightarrow> map_of fs senderTag)\<rparr>"

text \<open>
  Modelled from the spec: \<open>getWxidFromBytesExtra\<close> of \<open>./utils\<close>, which is not among
  the sources: the sender identifier of the decoded record, if it has one.
\<close>

definition getWxidFromBytesExtra :: "senderExtraRecord \<Rightarrow> string option" where
  "getWxidFromBytesExtra extra = sender extra"

record roomMember =
  wxid :: string

record roomData =
  members :: "roomMember list option"

text \<open>
  Modelled from the spec: the loop of \<open>decodeRoomData\<close> of \<open>./utils\<close>, which is not
  among the sources (the room-membership decoder, section 4.5). It decodes member
  sub-records from the front of the buffer for as long as they are well formed and stops
  at the end of the buffer or at the first truncated or malformed point.
\<close>

function decodeMembers :: "memberReader \<Rightarrow> bytes \<Rightarrow> string list" where
  "decodeMembers member buf =
     (if buf = [] then []
      else case member buf of
             None \<Rightarrow> []
           | Some (w, n) \<Rightarrow>
               if 0 < n \<and> n \<le> length buf then w # decodeMembers member (drop n buf) else [])"
  by pat_completeness auto
termination
  by (relation "measure (\<lambda>(member, buf). length buf)") auto

declare decodeMembers.simps [simp del]

text \<open>The reader finds no well-formed sub-record at the front of \<open>buf\<close>.\<close>

definition malformedAt :: "memberReader \<Rightarrow> bytes \<Rightarrow> bool" where
  "malformedAt member buf =
     (case member buf of
        None \<Rightarrow> True
      | Some (w, n) \<Rightarrow> \<not> (0 < n \<and> n \<le> length buf))"

text \<open>
  Modelled from the spec: \<open>decodeRoomData\<close> of \<open>./utils\<close>, which is not among the
  sources: the member list, in encounter order; empty when nothing could be decoded.
\<close>

definition decodeRoomData :: "memberReader \<Rightarrow> bytes \<Rightarrow> roomData" where
  "decodeRoomData member buf =
     \<lparr>members = Some (map (\<lambda>w. \<lparr>wxid = w\<rparr>) (decodeMembers member buf))\<rparr>"

record chatRoomRow =
  RoomData :: bytes
  Reserved2 :: "string option"

record 'r chatRoomDetail =
  detailRow :: "'r chatRoomRow_scheme"
  ownerUserName :: "string option"
  memberIds :: "string list"

text \<open>\<open>getChatRoomDetailList\<close>: \<open>data.members?.map(m => m.wxid) ?? []\<close> for every row.\<close>

definition getChatRoomDetailList ::
    "memberReader \<Rightarrow> 'r chatRoomRow_scheme list \<Rightarrow> 'r chatRoomDetail list" where
  "getChatRoomDetailList member list =
     map (\<lambda>v. let decoded = decodeRoomData member (RoomData v);
                  ids = (case members decoded of
                           None \<Rightarrow> []
                         | Some ms \<Rightarrow> map wxid ms)
              in \<lparr>detailRow = v, ownerUserName = Reserved2 v, memberIds = ids\<rparr>) list"

record msgRow =
  BytesExtra :: bytes

record 'r historyMessage =
  message :: "'r msgRow_scheme"
  talkerWxid :: string

text \<open>
  \<open>getHistoryMessageList\<close>. \<open>selfWxid\<close> is what \<open>this.wcf.getSelfWxid()\<close> returns;
  \<open>dbSqlQuery\<close> gives the rows for the talker id and the caller's filter. The operator
  \<open>||\<close> takes the fallback for an absent sender and for an empty one.
\<close>

definition getHistoryMessageList ::
    "'g fieldReader \<Rightarrow> 'g \<Rightarrow> string \<Rightarrow> (string \<Rightarrow> 't talkerRow_scheme list) \<Rightarrow>
     (string option \<Rightarrow> 'f \<Rightarrow> 'r msgRow_scheme list) \<Rightarrow> string \<Rightarrow> 'f \<Rightarrow> 'r historyMessage list" where
  "getHistoryMessageList readFields senderTag selfWxid talkerQuery dbSqlQuery userName flt =
     (let talkerId = getTalkerId talkerQuery userName;
          rows = dbSqlQuery talkerId flt
      in map (\<lambda>msg. let extra = decodeBytesExtra readFields senderTag (BytesExtra msg);
                        found = (case getWxidFromBytesExtra extra of
                                   None \<Rightarrow> selfWxid
                                 | Some s \<Rightarrow> if s = [] then selfWxid else s)
                    in \<lparr>message = msg, talkerWxid = found\<rparr>) rows)"

text \<open>
  Sample layouts, for evaluating the decoders on concrete buffers. A member sub-record
  is the identifier followed by a semicolon. A sender-extra buffer is a sequence of
  fields, each a one-character tag, the value and a semicolon; the sender's tag is \<open>S\<close>.
\<close>

definition sampleMember :: memberReader where
  "sampleMember buf =
     (if CHR '';'' \<in> set buf
      then Some (takeWhile (\<lambda>c. c \<noteq> CHR '';'') buf,
                 Suc (length (takeWhile (\<lambda>c. c \<noteq> CHR '';'') buf)))
      else None)"

definition sampleFields :: "char fieldReader" where
  "sampleFields buf =
     (let pieces = splitBy '';'' [] buf
      in if last pieces \<noteq> [] \<or> [] \<in> set (butlast pieces) then None
         else Some (map (\<lambda>p. (hd p, tl p)) (butlast pieces)))"

section \<open>The limiter\<close>

lemma admit_not_early: "now \<le> fst (admit l now)"
  by (simp add: admit_def split: option.splits)

lemma admit_capacity: "capacity (snd (admit l now)) = capacity l"
  by (simp add: admit_def split: option.splits)

lemma admit_windowDuration: "windowDuration (snd (admit l now)) = windowDuration l"
  by (simp add: admit_def split: option.splits)

text \<open>The quota of a window is never exceeded.\<close>

lemma admit_within_capacity:
  "0 < capacity l \<Longrightarrow> usedInWindow l \<le> capacity l \<Longrightarrow>
   usedInWindow (snd (admit l now)) \<le> capacity (snd (admit l now))"
  by (auto simp: admit_def split: option.splits)

lemma paced_pThrottle: "paced (pThrottle (Suc 0) d)"
  by (simp add: paced_def pThrottle_def)

lemma paced_admit: "paced l \<Longrightarrow> paced (snd (admit l now))"
  by (auto simp: paced_def admit_def split: option.splits)

text \<open>A throttle of capacity 1 starts every call at the beginning of a window of its own.\<close>

lemma paced_admit_start:
  "paced l \<Longrightarrow> windowStart (snd (admit l now)) = Some (fst (admit l now))"
  by (auto simp: paced_def admit_def split: option.splits)

lemma paced_admit_gap:
  "paced l \<Longrightarrow> windowStart l = Some ws \<Longrightarrow> ws + windowDuration l \<le> fst (admit l now)"
  by (auto simp: paced_def admit_def split: option.splits)

lemma spaced_Cons: "(\<forall>u \<in> set ts. t + d \<le> u) \<Longrightarrow> spaced d ts \<Longrightarrow> spaced d (t # ts)"
  by (cases ts) auto

section \<open>One call through the proxy\<close>

lemma prop_of_function: "prop_of q \<in> set functionMembers"
  by (cases q) (simp_all add: functionMembers_def)

lemma intercepted_iff: "intercepted a (prop_of q) = (safe a \<and> startsWith (prop_of q) ''send'')"
  by (simp add: intercepted_def prop_of_function)

text \<open>
  An intercepted call whose recipient is not the name of a member of
  \<open>Object.prototype\<close>: the registry's throttle, or a new one, paces it.
\<close>

lemma throttledSend_own:
  assumes "first_arg (req c) \<notin> set objectPrototype"
  shows "throttledSend w a c =
     (let id = first_arg (req c);
          th = (case recipientThrottles a id of Some th \<Rightarrow> th | None \<Rightarrow> pThrottle 1 (draw c));
          tg = fst (admit (throttleGlobal a) (at c));
          te = fst (admit th tg)
      in (\<lparr>trace = [Submitted Global (at c), Admitted Global tg,
                      Submitted (Recipient id) tg, Admitted (Recipient id) te, Executed te],
            settled = methodBody w te (req c)\<rparr>,
          a\<lparr>throttleGlobal := snd (admit (throttleGlobal a) (at c)),
            recipientThrottles := (recipientThrottles a)(id \<mapsto> snd (admit th tg))\<rparr>))"
  using assms
  by (auto simp: throttledSend_def getThrottleForRecipient_def getProperty_def Let_def
      case_prod_beta split: option.splits)

lemma invoke_safe: "safe (snd (invoke w a c)) = safe a"
  by (simp add: invoke_def throttledSend_def getThrottleForRecipient_def Let_def case_prod_beta
      split: option.splits property.splits)

lemma invoke_registry_other:
  "\<not> (isSendTo r c \<and> safe a) \<Longrightarrow>
   recipientThrottles (snd (invoke w a c)) r = recipientThrottles a r"
  by (auto simp: invoke_def intercepted_iff isSendTo_def throttledSend_def
      getThrottleForRecipient_def Let_def case_prod_beta
      split: option.splits property.splits)

text \<open>No call removes a throttle from the registry or changes its capacity or window.\<close>

lemma invoke_keeps_entry:
  "recipientThrottles a r = Some th \<Longrightarrow>
   \<exists>th1. recipientThrottles (snd (invoke w a c)) r = Some th1 \<and>
         windowDuration th1 = windowDuration th \<and> capacity th1 = capacity th"
  by (auto simp: invoke_def throttledSend_def getThrottleForRecipient_def getProperty_def Let_def
      admit_capacity admit_windowDuration case_prod_beta
      split: option.splits property.splits)

lemma invoke_registryPaced: "registryPaced a \<Longrightarrow> registryPaced (snd (invoke w a c))"
  by (auto simp: registryPaced_def invoke_def throttledSend_def getThrottleForRecipient_def
      getProperty_def Let_def paced_admit paced_pThrottle case_prod_beta
      split: option.splits property.splits if_splits)

lemma invoke_registry_range:
  assumes "lo \<le> draw c \<and> draw c < hi"
    and "\<forall>r th. recipientThrottles a r = Some th \<longrightarrow>
           capacity th = 1 \<and> lo \<le> windowDuration th \<and> windowDuration th < hi"
  shows "\<forall>r th. recipientThrottles (snd (invoke w a c)) r = Some th \<longrightarrow>
           capacity th = 1 \<and> lo \<le> windowDuration th \<and> windowDuration th < hi"
  using assms
  by (auto simp: invoke_def throttledSend_def getThrottleForRecipient_def getProperty_def Let_def
      admit_capacity admit_windowDuration case_prod_beta pThrottle_def
      split: option.splits property.splits if_splits)

lemma invoke_send_to:
  assumes "isSendTo r c" "safe a" "r \<notin> set objectPrototype" "registryPaced a"
  shows "\<exists>te th1. executions [fst (invoke w a c)] = [te] \<and>
           recipientThrottles (snd (invoke w a c)) r = Some th1 \<and>
           windowStart th1 = Some te \<and>
           (\<forall>th ws. recipientThrottles a r = Some th \<longrightarrow> windowStart th = Some ws \<longrightarrow>
               ws + windowDuration th \<le> te)"
proof -
  have i: "intercepted a (prop_of (req c))" and f: "first_arg (req c) = r"
    using assms(1,2) by (simp_all add: intercepted_iff isSendTo_def)
  have p: "paced (case recipientThrottles a r of Some th \<Rightarrow> th | None \<Rightarrow> pThrottle 1 (draw c))"
    using assms(4) by (auto simp: registryPaced_def paced_pThrottle split: option.splits)
  show ?thesis
    using i f assms(3) p
    by (auto simp: invoke_def throttledSend_own Let_def executions_def paced_admit_start
        paced_admit_gap split: option.splits)
qed

text \<open>
  The wrapper adds nothing to the result and takes nothing from it: for such a
  recipient the call settles with what the method returns or throws when it runs.
\<close>

lemma wrapper_settles_with_the_result_of_the_method:
  assumes "first_arg (req c) \<notin> set objectPrototype"
  shows "\<exists>te. at c \<le> te \<and> settled (fst (throttledSend w a c)) = methodBody w te (req c)"
proof -
  let ?th = "case recipientThrottles a (first_arg (req c)) of
               Some th \<Rightarrow> th | None \<Rightarrow> pThrottle 1 (draw c)"
  let ?tg = "fst (admit (throttleGlobal a) (at c))"
  have "at c \<le> ?tg" and "?tg \<le> fst (admit ?th ?tg)"
    by (rule admit_not_early)+
  then have "at c \<le> fst (admit ?th ?tg)" by (rule order_trans)
  moreover have "settled (fst (throttledSend w a c)) = methodBody w (fst (admit ?th ?tg)) (req c)"
    using assms by (simp add: throttledSend_own Let_def)
  ultimately show ?thesis by blast
qed

section \<open>Histories\<close>

lemma run_Cons:
  "run w a (c # cs) =
     (fst (invoke w a c) # fst (run w (snd (invoke w a c)) cs),
      snd (run w (snd (invoke w a c)) cs))"
  by (simp add: case_prod_beta Let_def)

lemma run_safe: "safe (snd (run w a cs)) = safe a"
  by (induction cs arbitrary: a) (simp_all add: case_prod_beta Let_def invoke_safe)

lemma run_keeps_entry:
  "recipientThrottles a r = Some th \<Longrightarrow>
   \<exists>th1. recipientThrottles (snd (run w a cs)) r = Some th1 \<and>
         windowDuration th1 = windowDuration th \<and> capacity th1 = capacity th"
proof (induction cs arbitrary: a th)
  case Nil
  then show ?case by simp
next
  case (Cons c cs)
  obtain th1 where 1: "recipientThrottles (snd (invoke w a c)) r = Some th1"
    "windowDuration th1 = windowDuration th" "capacity th1 = capacity th"
    using invoke_keeps_entry [OF Cons.prems] by blast
  from Cons.IH [OF 1(1)] 1(2,3) show ?case
    by (auto simp only: run_Cons snd_conv)
qed

lemma run_registry_range:
  assumes "\<forall>c \<in> set cs. lo \<le> draw c \<and> draw c < hi"
    and "\<forall>r th. recipientThrottles a r = Some th \<longrightarrow>
           capacity th = 1 \<and> lo \<le> windowDuration th \<and> windowDuration th < hi"
  shows "\<forall>r th. recipientThrottles (snd (run w a cs)) r = Some th \<longrightarrow>
           capacity th = 1 \<and> lo \<le> windowDuration th \<and> windowDuration th < hi"
  using assms
proof (induction cs arbitrary: a)
  case Nil
  then show ?case by simp
next
  case (Cons c cs)
  have "\<forall>r th. recipientThrottles (snd (invoke w a c)) r = Some th \<longrightarrow>
           capacity th = 1 \<and> lo \<le> windowDuration th \<and> windowDuration th < hi"
    using Cons.prems by (intro invoke_registry_range) simp_all
  with Cons.IH [of "snd (invoke w a c)"] Cons.prems(1) show ?case
    by (simp only: run_Cons snd_conv) simp
qed

text \<open>
  The executions of the sends to one throttled recipient are spaced by the window of its
  throttle, and none comes earlier than one window after the start of the window the
  throttle was in before the history.
\<close>

lemma run_spacing:
  assumes "r \<notin> set objectPrototype"
  shows "registryPaced a \<Longrightarrow> safe a \<Longrightarrow>
     recipientThrottles (snd (run w a cs)) r = Some th' \<Longrightarrow>
     spaced (windowDuration th') (executionsFor r cs (fst (run w a cs))) \<and>
     (\<forall>th ws. recipientThrottles a r = Some th \<longrightarrow> windowStart th = Some ws \<longrightarrow>
        (\<forall>t \<in> set (executionsFor r cs (fst (run w a cs))). ws + windowDuration th' \<le> t))"
proof (induction cs arbitrary: a)
  case Nil
  then show ?case by simp
next
  case (Cons c cs)
  let ?a1 = "snd (invoke w a c)"
  let ?rest = "executionsFor r cs (fst (run w ?a1 cs))"
  have paced1: "registryPaced ?a1" and safe1: "safe ?a1"
    using Cons.prems by (simp_all add: invoke_registryPaced invoke_safe)
  have final: "recipientThrottles (snd (run w ?a1 cs)) r = Some th'"
    using Cons.prems(3) by (simp only: run_Cons snd_conv)
  note IH = Cons.IH [OF paced1 safe1 final]
  show ?case
  proof (cases "isSendTo r c")
    case False
    then have same: "recipientThrottles ?a1 r = recipientThrottles a r"
      by (simp add: invoke_registry_other)
    have "executionsFor r (c # cs) (fst (run w a (c # cs))) = ?rest"
      using False by (simp only: run_Cons fst_conv executionsFor.simps if_False append_Nil)
    with IH same show ?thesis by simp
  next
    case True
    obtain te th1 where s:
      "executions [fst (invoke w a c)] = [te]"
      "recipientThrottles ?a1 r = Some th1"
      "windowStart th1 = Some te"
      "\<forall>th ws. recipientThrottles a r = Some th \<longrightarrow> windowStart th = Some ws \<longrightarrow>
               ws + windowDuration th \<le> te"
      using invoke_send_to [OF True Cons.prems(2) assms Cons.prems(1)] by blast
    have d1: "windowDuration th' = windowDuration th1"
      using run_keeps_entry [OF s(2), of w cs] final by auto
    have later: "\<forall>t \<in> set ?rest. te + windowDuration th' \<le> t"
      using IH s(2,3) by blast
    have ex: "executionsFor r (c # cs) (fst (run w a (c # cs))) = te # ?rest"
      using True s(1) by (simp only: run_Cons fst_conv executionsFor.simps if_True) simp
    have sp: "spaced (windowDuration th') (te # ?rest)"
      using later IH by (simp add: spaced_Cons)
    have lower: "\<forall>th ws. recipientThrottles a r = Some th \<longrightarrow> windowStart th = Some ws \<longrightarrow>
        (\<forall>t \<in> set (te # ?rest). ws + windowDuration th' \<le> t)"
    proof (intro allI impI)
      fix th ws
      assume h: "recipientThrottles a r = Some th" "windowStart th = Some ws"
      obtain th2 where "recipientThrottles ?a1 r = Some th2"
        "windowDuration th2 = windowDuration th"
        using invoke_keeps_entry [OF h(1)] by blast
      with s(2) d1 have d: "windowDuration th' = windowDuration th" by simp
      have "ws + windowDuration th' \<le> te" using s(4) h d by simp
      with later show "\<forall>t \<in> set (te # ?rest). ws + windowDuration th' \<le> t"
        by (auto intro: order_trans [of _ "te + windowDuration th'"])
    qed
    show ?thesis using sp lower ex by simp
  qed
qed

text \<open>
  In safe mode, a recipient that has a throttle in the registry has its sends executed
  at least one window of that throttle apart; the window is the value drawn when the
  throttle was created.
\<close>

lemma sends_to_a_throttled_recipient_are_spaced:
  assumes "r \<notin> set objectPrototype"
    and "recipientThrottles (snd (run w (constructor True) cs)) r = Some th"
    and "\<forall>c \<in> set cs. 1000 \<le> draw c \<and> draw c < 3000"
  shows "spaced (windowDuration th) (executionsFor r cs (fst (run w (constructor True) cs))) \<and>
         capacity th = 1 \<and> 1000 \<le> windowDuration th \<and> windowDuration th < 3000"
proof -
  have "registryPaced (constructor True)" and "safe (constructor True)"
    by (simp_all add: registryPaced_def constructor_def)
  then have "spaced (windowDuration th) (executionsFor r cs (fst (run w (constructor True) cs)))"
    using run_spacing [OF assms(1) _ _ assms(2)] by blast
  moreover have "capacity th = 1 \<and> 1000 \<le> windowDuration th \<and> windowDuration th < 3000"
    using run_registry_range [OF assms(3), of "constructor True" w] assms(2)
    by (simp add: constructor_def)
  ultimately show ?thesis by simp
qed

section \<open>The registry\<close>

text \<open>
  For a recipient whose identifier is not the name of a member of \<open>Object.prototype\<close>,
  the first lookup stores a throttle of capacity 1 with the drawn window, and a later
  lookup returns the stored throttle, draws nothing and changes nothing.
\<close>

lemma first_lookup_creates:
  assumes "recipientThrottles a r = None" and "r \<notin> set objectPrototype"
  shows "getThrottleForRecipient d a r =
           (Own (pThrottle 1 d),
            a\<lparr>recipientThrottles := (recipientThrottles a)(r \<mapsto> pThrottle 1 d)\<rparr>)"
  using assms by (simp add: getThrottleForRecipient_def getProperty_def Let_def)

lemma later_lookup_returns:
  assumes "recipientThrottles a r = Some th"
  shows "getThrottleForRecipient d a r = (Own th, a)"
  using assms by (simp add: getThrottleForRecipient_def getProperty_def)

lemmas dispatch_defs =
  constructor_def pThrottle_def invoke_def intercepted_def functionMembers_def startsWith_def
  throttledSend_def getThrottleForRecipient_def getProperty_def objectPrototype_def admit_def
  Let_def sendTo_def idle_def executions_def

text \<open>
  C4. The registry lookup is to create, on the first call for any recipient identifier,
  one throttle of capacity 1 with a window drawn from 1000 to 2999, and to return that
  throttle ever after. For the identifier \<open>constructor\<close> the lookup on a new agent finds
  the constructor that every object inherits, returns it, draws nothing and stores
  nothing: the registry has no throttle for that recipient before or after.
\<close>

theorem lookup_of_constructor_creates_no_throttle:
  "getThrottleForRecipient 2000 (constructor True) ''constructor'' =
     (Inherited ''constructor'', constructor True) \<and>
   recipientThrottles (constructor True) ''constructor'' = None"
  by (simp add: dispatch_defs)

section \<open>The order of the two limiters\<close>

text \<open>
  C1, as stated, has the recipient's throttle handed the call first and the global
  limiter only once that throttle has admitted it. When forty-one messages are sent at
  time 0 to forty-one recipients, the last call is handed to the global limiter at 0,
  which starts it at 60000, and only then is it handed to the throttle of its recipient.
\<close>

theorem recipient_throttle_is_not_handed_the_call_first:
  "trace (last (fst (run idle (constructor True) fortyOneAtOnce))) =
     [Submitted Global 0, Admitted Global 60000, Submitted (Recipient ''c41'') 60000,
      Admitted (Recipient ''c41'') 60000, Executed 60000] \<and>
   handedFirstTo (trace (last (fst (run idle (constructor True) fortyOneAtOnce)))) \<noteq>
     Some (Recipient ''c41'')"
  by (simp add: fortyOneAtOnce_def forty_def handedFirstTo_def dispatch_defs)

text \<open>
  C1, amended. A send operation invoked in safe mode, for a recipient whose identifier
  is not the name of a member of \<open>Object.prototype\<close>, is handed to the global limiter
  when it is called; once the global limiter has admitted it, at \<open>tg\<close>, it is handed to
  the recipient's throttle (the one in the registry, or one created by this call); once
  that throttle has admitted it, at \<open>te\<close>, the method runs, and the call settles with
  the method's result.
\<close>

theorem send_is_handed_to_global_limiter_then_to_recipient_throttle:
  assumes "safe target" and "startsWith (prop_of (req c)) ''send''"
    and "first_arg (req c) \<notin> set objectPrototype"
  shows "\<exists>th tg te.
           th = (case recipientThrottles target (first_arg (req c)) of
                   Some th \<Rightarrow> th | None \<Rightarrow> pThrottle 1 (draw c)) \<and>
           tg = fst (admit (throttleGlobal target) (at c)) \<and>
           te = fst (admit th tg) \<and>
           at c \<le> tg \<and> tg \<le> te \<and>
           fst (invoke w target c) =
             \<lparr>trace = [Submitted Global (at c), Admitted Global tg,
                       Submitted (Recipient (first_arg (req c))) tg,
                       Admitted (Recipient (first_arg (req c))) te, Executed te],
              settled = methodBody w te (req c)\<rparr>"
  using assms
  by (simp add: invoke_def intercepted_iff throttledSend_own Let_def admit_not_early)

theorem send_is_handed_to_global_limiter_then_to_recipient_throttle_witness:
  "safe (constructor True) \<and> startsWith (prop_of (req (sendTo 7 ''alice''))) ''send'' \<and>
   first_arg (req (sendTo 7 ''alice'')) \<notin> set objectPrototype \<and>
   fst (invoke idle (constructor True) (sendTo 7 ''alice'')) =
     \<lparr>trace = [Submitted Global 7, Admitted Global 7, Submitted (Recipient ''alice'') 7,
               Admitted (Recipient ''alice'') 7, Executed 7],
      settled = Inr 0\<rparr>"
  using send_is_handed_to_global_limiter_then_to_recipient_throttle
    [of "constructor True" "sendTo 7 ''alice''" idle]
  by (simp add: dispatch_defs)

section \<open>The global window\<close>

text \<open>
  C2. No more than 40 send executions are to start in any window of the global limiter.
  In the history \<open>burst\<close> the global limiter opens its second window at 60001 and admits
  forty calls in it, which all run at once; the second message to \<open>alice\<close>, which the
  global limiter admitted in its first window and her throttle held back until 60500,
  runs in that window too: forty-one executions start in it.
\<close>

theorem global_window_is_overrun:
  "throttleGlobal (snd (run idle (constructor True) burst)) =
     \<lparr>capacity = 40, windowDuration = 60000, windowStart = Some 60001, usedInWindow = 40\<rparr> \<and>
   startedInWindow 60001 60000 (fst (run idle (constructor True) burst)) = 41"
  by (simp add: burst_def forty_def startedInWindow_def dispatch_defs)

section \<open>Pacing per recipient\<close>

text \<open>
  C3. Consecutive executions for one recipient are to be at least that recipient's
  window apart, a value from 1000 to 2999. Two messages sent at time 0 to the recipient
  \<open>constructor\<close> both run at time 0, and no throttle is ever assigned to that recipient.
\<close>

theorem sends_to_constructor_are_not_spaced:
  "executionsFor ''constructor'' twice (fst (run idle (constructor True) twice)) = [0, 0] \<and>
   \<not> spaced 1000 (executionsFor ''constructor'' twice (fst (run idle (constructor True) twice))) \<and>
   recipientThrottles (snd (run idle (constructor True) twice)) ''constructor'' = None"
  by (simp add: twice_def isSendTo_def dispatch_defs)

section \<open>The result of a wrapped call\<close>

text \<open>
  C8. The wrapped call is to settle with exactly what the transport operation returns
  or throws, the wrapper having no failure of its own. A text message to the recipient
  \<open>toString\<close> in safe mode is admitted by the global limiter and then fails with a
  \<open>TypeError\<close> raised in the wrapper; the method, which would have returned 0, never
  runs.
\<close>

theorem send_to_toString_fails_in_the_wrapper:
  "fst (invoke idle (constructor True) (sendTo 0 ''toString'')) =
     \<lparr>trace = [Submitted Global 0, Admitted Global 0], settled = Inl TypeError\<rparr> \<and>
   methodBody idle 0 (req (sendTo 0 ''toString'')) = Inr 0"
  by (simp add: dispatch_defs)

section \<open>Safe mode\<close>

lemma perform_safe: "safe (snd (perform w a steps)) = safeAfter (safe a) steps"
proof (induction steps arbitrary: a)
  case Nil
  then show ?case by simp
next
  case (Cons st steps)
  show ?case
  proof (cases st)
    case (Call c)
    have "safe (snd (perform w (snd (invoke w a c)) steps)) = safeAfter (safe a) steps"
      using Cons.IH [of "snd (invoke w a c)"] by (simp add: invoke_safe)
    with Call show ?thesis by (simp add: case_prod_beta Let_def)
  next
    case (AssignSafe v)
    with Cons.IH [of "a\<lparr>safe := v\<rparr>"] show ?thesis by simp
  qed
qed

text \<open>
  C5, as stated, has the mode decided once by the constructor and immutable thereafter.
  On an agent constructed in safe mode a text message to \<open>alice\<close> goes through both
  limiters; after the assignment \<open>agent.safe = false\<close> the same call runs the method at
  once and no limiter is handed it.
\<close>

theorem assignment_to_safe_changes_dispatch:
  "trace (fst (invoke idle (constructor True) (sendTo 0 ''alice''))) =
     [Submitted Global 0, Admitted Global 0, Submitted (Recipient ''alice'') 0,
      Admitted (Recipient ''alice'') 0, Executed 0] \<and>
   safe (snd (perform idle (constructor True) [AssignSafe False])) \<noteq> True \<and>
   invoke idle (snd (perform idle (constructor True) [AssignSafe False])) (sendTo 0 ''alice'') =
     (\<lparr>trace = [Executed 0], settled = Inr 0\<rparr>,
      snd (perform idle (constructor True) [AssignSafe False]))"
  by (simp add: dispatch_defs)

text \<open>
  C5, amended. The constructor sets the field \<open>safe\<close> from the resolved option and no
  call through the proxy changes it: after any history of calls alone it has the value
  it was constructed with. The trap reads the field at every access, so after a
  history that also holds assignments to the field, a call is throttled exactly when
  the value last given to \<open>safe\<close>, by the constructor or by a later assignment, is true
  and the method's name starts with \<open>send\<close>, and runs the method at once, leaving the
  agent as it was, otherwise.
\<close>

theorem dispatch_follows_the_safe_field:
  "safe (snd (run w (constructor resolvedSafe) cs)) = resolvedSafe \<and>
   safe (snd (perform w (constructor resolvedSafe) steps)) = safeAfter resolvedSafe steps \<and>
   intercepted (snd (perform w (constructor resolvedSafe) steps)) prop =
     (safeAfter resolvedSafe steps \<and> prop \<in> set functionMembers \<and> startsWith prop ''send'') \<and>
   invoke w (snd (perform w (constructor resolvedSafe) steps)) c =
     (if safeAfter resolvedSafe steps \<and> startsWith (prop_of (req c)) ''send''
      then throttledSend w (snd (perform w (constructor resolvedSafe) steps)) c
      else (\<lparr>trace = [Executed (at c)], settled = methodBody w (at c) (req c)\<rparr>,
            snd (perform w (constructor resolvedSafe) steps)))"
proof -
  have r: "safe (snd (run w (constructor resolvedSafe) cs)) = resolvedSafe"
    by (simp add: run_safe constructor_def)
  have p: "safe (snd (perform w (constructor resolvedSafe) steps)) = safeAfter resolvedSafe steps"
    by (simp add: perform_safe constructor_def)
  from r p show ?thesis
    by (simp add: intercepted_def invoke_def prop_of_function)
qed

section \<open>Only send operations are intercepted\<close>

text \<open>
  C9. Even in safe mode the trap wraps a member only if its name starts with
  \<open>send\<close>; \<open>forwardMsg\<close>, \<open>inviteChatRoomMembers\<close>, \<open>addChatRoomMembers\<close> and
  \<open>removeChatRoomMembers\<close> run their method at once, whatever the mode: no limiter is
  handed the call and the agent is left as it was.
\<close>

theorem only_send_is_intercepted:
  "(intercepted target prop \<longrightarrow> safe target \<and> startsWith prop ''send'') \<and>
   (prop_of (req c) \<in> {''forwardMsg'', ''inviteChatRoomMembers'', ''addChatRoomMembers'',
                        ''removeChatRoomMembers''} \<longrightarrow>
      \<not> intercepted target (prop_of (req c)) \<and>
      invoke w target c =
        (\<lparr>trace = [Executed (at c)], settled = methodBody w (at c) (req c)\<rparr>, target))"
  by (auto simp: intercepted_def startsWith_def invoke_def)

theorem only_send_is_intercepted_witness:
  "intercepted (constructor True) ''sendText'' \<and> startsWith ''sendText'' ''send'' \<and>
   invoke (\<lambda>t p. Inr 0) (constructor True)
       \<lparr>at = 5, req = ForwardMsg ''alice'' ''m1'', draw = 1000\<rparr> =
     (\<lparr>trace = [Executed 5], settled = Inr 0\<rparr>, constructor True)"
  using only_send_is_intercepted
    [of "constructor True" "''sendText''"
        "\<lparr>at = 5, req = ForwardMsg ''alice'' ''m1'', draw = 1000\<rparr>" "\<lambda>t p. Inr 0"]
  by (simp add: intercepted_def constructor_def functionMembers_def startsWith_def)

section \<open>Lookups that find no row\<close>

text \<open>
  C10. When the query of \<open>getChatRoomInfo\<close>, \<open>getContactInfo\<close> or \<open>getTalkerId\<close>
  returns no row, the read returns \<open>undefined\<close>, with no error and no partial record;
  so does \<open>getChatRoomMembers\<close> when the room's query returns no row.
\<close>

theorem lookup_without_row_is_undefined:
  "(infoQuery userName = [] \<longrightarrow> getChatRoomInfo infoQuery userName = Inr None) \<and>
   (contactQuery userName = [] \<longrightarrow> getContactInfo contactQuery userName = None) \<and>
   (talkerQuery userName = [] \<longrightarrow> getTalkerId talkerQuery userName = None) \<and>
   (infoQuery userName = [] \<longrightarrow> getChatRoomMembers infoQuery membersQuery userName = Inr None)"
  by (simp add: getChatRoomInfo_def getContactInfo_def getTalkerId_def getChatRoomMembers_def)

theorem lookup_without_row_is_undefined_witness:
  "getChatRoomInfo (\<lambda>u. [] :: chatRoomInfoRow list) ''room@chatroom'' = Inr None \<and>
   getContactInfo (\<lambda>u. [] :: contactInfoRow list) ''room@chatroom'' = None \<and>
   getTalkerId (\<lambda>u. [] :: talkerRow list) ''room@chatroom'' = None \<and>
   getChatRoomMembers (\<lambda>u. [] :: chatRoomInfoRow list) (\<lambda>ids. [] :: memberRow list)
     ''room@chatroom'' = Inr None"
  using lookup_without_row_is_undefined
    [of "\<lambda>u. [] :: chatRoomInfoRow list" "''room@chatroom''"
        "\<lambda>u. [] :: contactInfoRow list" "\<lambda>u. [] :: talkerRow list"
        "\<lambda>ids. [] :: memberRow list"]
  by simp

section \<open>The decoders and their callers\<close>

lemma splitBy_Nil: "splitBy sep piece [] = [piece]"
  by (simp add: splitBy.simps)

lemma splitBy_at_separator:
  "sep \<noteq> [] \<Longrightarrow> take (length sep) (c # s) = sep \<Longrightarrow>
   splitBy sep piece (c # s) = piece # splitBy sep [] (drop (length sep) (c # s))"
  by (subst splitBy.simps) simp

lemma splitBy_elsewhere:
  "take (length sep) (c # s) \<noteq> sep \<Longrightarrow>
   splitBy sep piece (c # s) = splitBy sep (piece @ [c]) s"
  by (subst splitBy.simps) simp

lemmas splitBy_eval = splitBy_Nil splitBy_at_separator splitBy_elsewhere

text \<open>
  A buffer that holds well-formed sub-records, each read the same whatever follows it,
  and then ends or reaches a point where no sub-record can be read, decodes to the
  identifiers of those sub-records in their order.
\<close>

lemma decodeMembers_records:
  assumes "\<forall>(w, chunk) \<in> set recs.
             chunk \<noteq> [] \<and> (\<forall>rest. member (chunk @ rest) = Some (w, length chunk))"
    and "rest = [] \<or> malformedAt member rest"
  shows "decodeMembers member (concat (map snd recs) @ rest) = map fst recs"
  using assms
proof (induction recs)
  case Nil
  then show ?case
    by (auto simp: decodeMembers.simps malformedAt_def split: option.splits)
next
  case (Cons rc recs)
  obtain w chunk where rc: "rc = (w, chunk)" by (cases rc)
  from Cons.prems(1) rc have c: "chunk \<noteq> []"
    and m: "member (chunk @ (concat (map snd recs) @ rest)) = Some (w, length chunk)"
    by auto
  have "decodeMembers member (chunk @ concat (map snd recs) @ rest) =
          w # decodeMembers member (concat (map snd recs) @ rest)"
    using c m by (subst decodeMembers.simps) simp
  with Cons rc show ?case by simp
qed

text \<open>
  C7. For a row whose room-membership buffer holds the well-formed sub-records \<open>recs\<close>
  and then ends or is truncated or malformed, the decoder returns the identifiers of
  \<open>recs\<close> in encounter order (none when there is no well-formed sub-record), and
  \<open>getChatRoomDetailList\<close> returns that row with those identifiers; it returns one entry
  for every row of the query, whatever the buffers hold.
\<close>

theorem room_members_up_to_the_first_malformed_point:
  assumes "\<forall>(w, chunk) \<in> set recs.
             chunk \<noteq> [] \<and> (\<forall>rest. member (chunk @ rest) = Some (w, length chunk))"
    and "rest = [] \<or> malformedAt member rest"
    and "v \<in> set rows" and "RoomData v = concat (map snd recs) @ rest"
  shows "members (decodeRoomData member (RoomData v)) =
           Some (map (\<lambda>w. \<lparr>wxid = w\<rparr>) (map fst recs)) \<and>
         \<lparr>detailRow = v, ownerUserName = Reserved2 v, memberIds = map fst recs\<rparr>
           \<in> set (getChatRoomDetailList member rows) \<and>
         length (getChatRoomDetailList member rows) = length rows"
proof -
  have d: "decodeMembers member (RoomData v) = map fst recs"
    using assms(1,2,4) by (simp add: decodeMembers_records)
  then have "members (decodeRoomData member (RoomData v)) =
               Some (map (\<lambda>w. \<lparr>wxid = w\<rparr>) (map fst recs))"
    by (simp add: decodeRoomData_def)
  moreover have "\<lparr>detailRow = v, ownerUserName = Reserved2 v, memberIds = map fst recs\<rparr>
           \<in> set (getChatRoomDetailList member rows)"
    using assms(3) d
    by (auto simp: getChatRoomDetailList_def decodeRoomData_def Let_def o_def image_iff
        intro!: bexI [of _ v])
  ultimately show ?thesis by (simp add: getChatRoomDetailList_def)
qed

theorem room_members_up_to_the_first_malformed_point_witness:
  "malformedAt sampleMember ''w3'' \<and>
   getChatRoomDetailList sampleMember [\<lparr>RoomData = ''w1;w2;w3'', Reserved2 = Some ''w1''\<rparr>] =
     [\<lparr>detailRow = \<lparr>RoomData = ''w1;w2;w3'', Reserved2 = Some ''w1''\<rparr>,
       ownerUserName = Some ''w1'', memberIds = [''w1'', ''w2'']\<rparr>]"
proof -
  let ?v = "\<lparr>RoomData = ''w1;w2;w3'', Reserved2 = Some ''w1''\<rparr>"
  let ?recs = "[(''w1'', ''w1;''), (''w2'', ''w2;'')]"
  have h1: "\<forall>(w, chunk) \<in> set ?recs.
              chunk \<noteq> [] \<and> (\<forall>rest. sampleMember (chunk @ rest) = Some (w, length chunk))"
    by (simp add: sampleMember_def)
  have h2: "malformedAt sampleMember ''w3''"
    by (simp add: sampleMember_def malformedAt_def)
  have h3: "?v \<in> set [?v]" by simp
  have h4: "RoomData ?v = concat (map snd ?recs) @ ''w3''" by simp
  have "members (decodeRoomData sampleMember (RoomData ?v)) =
          Some (map (\<lambda>w. \<lparr>wxid = w\<rparr>) (map fst ?recs))"
    using room_members_up_to_the_first_malformed_point [OF h1 disjI2 [OF h2] h3 h4]
    by (rule conjunct1)
  then show ?thesis using h2 by (simp add: getChatRoomDetailList_def)
qed

text \<open>
  C6. For a history-message row whose sender-extra buffer is empty, truncated or
  without the sender field, the decoder yields no sender and \<open>getHistoryMessageList\<close>
  returns the row with the account's own identifier as \<open>talkerWxid\<close>; it returns one
  entry for every row of the query.
\<close>

theorem absent_sender_falls_back_to_own_identifier:
  assumes "msg \<in> set (dbSqlQuery (getTalkerId talkerQuery userName) flt)"
    and "BytesExtra msg = [] \<or> readFields (BytesExtra msg) = None \<or>
         (\<exists>fs. readFields (BytesExtra msg) = Some fs \<and> map_of fs senderTag = None)"
  shows "getWxidFromBytesExtra (decodeBytesExtra readFields senderTag (BytesExtra msg)) = None \<and>
         \<lparr>message = msg, talkerWxid = selfWxid\<rparr>
           \<in> set (getHistoryMessageList readFields senderTag selfWxid talkerQuery dbSqlQuery
                    userName flt) \<and>
         length (getHistoryMessageList readFields senderTag selfWxid talkerQuery dbSqlQuery
                    userName flt) =
           length (dbSqlQuery (getTalkerId talkerQuery userName) flt)"
proof -
  have a: "getWxidFromBytesExtra (decodeBytesExtra readFields senderTag (BytesExtra msg)) = None"
    using assms(2) by (auto simp: getWxidFromBytesExtra_def decodeBytesExtra_def)
  then have "\<lparr>message = msg, talkerWxid = selfWxid\<rparr>
           \<in> set (getHistoryMessageList readFields senderTag selfWxid talkerQuery dbSqlQuery
                    userName flt)"
    using assms(1)
    by (auto simp: getHistoryMessageList_def Let_def image_iff intro!: bexI [of _ msg])
  with a show ?thesis by (simp add: getHistoryMessageList_def Let_def)
qed

theorem absent_sender_falls_back_to_own_identifier_witness:
  "sampleFields ''Swxid_abc'' = None \<and>
   getHistoryMessageList sampleFields CHR ''S'' ''wxid_self'' (\<lambda>u. [\<lparr>TalkerId = ''7''\<rparr>])
       (\<lambda>t f. [\<lparr>BytesExtra = ''Swxid_abc''\<rparr>]) ''wxid_a'' () =
     [\<lparr>message = \<lparr>BytesExtra = ''Swxid_abc''\<rparr>, talkerWxid = ''wxid_self''\<rparr>]"
proof -
  let ?msg = "\<lparr>BytesExtra = ''Swxid_abc''\<rparr>"
  let ?rows = "\<lambda>(t :: string option) (f :: unit). [?msg]"
  let ?talker = "\<lambda>u :: string. [\<lparr>TalkerId = ''7''\<rparr>]"
  have h1: "?msg \<in> set (?rows (getTalkerId ?talker ''wxid_a'') ())" by simp
  have n: "sampleFields ''Swxid_abc'' = None"
    by (simp add: sampleFields_def splitBy_eval)
  then have h2: "BytesExtra ?msg = [] \<or> sampleFields (BytesExtra ?msg) = None \<or>
         (\<exists>fs. sampleFields (BytesExtra ?msg) = Some fs \<and> map_of fs CHR ''S'' = None)"
    by simp
  have "getWxidFromBytesExtra (decodeBytesExtra sampleFields CHR ''S'' (BytesExtra ?msg)) = None"
    using absent_sender_falls_back_to_own_identifier
      [of ?msg ?rows ?talker "''wxid_a''" "()" sampleFields "CHR ''S''" "''wxid_self''", OF h1 h2]
    by (rule conjunct1)
  then show ?thesis using n by (simp add: getHistoryMessageList_def)
qed

end
